theory Spec2Isabelle
  imports Complex_Main "HOL-Library.Word"
begin

section \<open>Data model of app.py\<close>

text \<open>
  The service of \<^verbatim>\<open>app.py\<close>: a Flask handler \<^verbatim>\<open>upload\<close> that validates a multipart
  request, loads one TFLite interpreter, and for each of the first six uploaded files saves
  it, predicts, interprets the output by arg-max and removes the file again.

  What lies outside the repository (the TFLite runtime, the image decoder, werkzeug's
  \<^verbatim>\<open>secure_filename\<close>, the file system's willingness to open a path for writing) is a
  field of the environment record; every raise of the source is a branch returning
  \<open>Inl\<close>.
\<close>

type_synonym bytes = "8 word list"

text \<open>The output tensor read at line 54: a two-dimensional array, batch by classes.
  Its entries are the reals the floats denote (no NaN).\<close>

type_synonym preds = "real list list"

text \<open>Exceptions that can leave a function of the source.\<close>

datatype exn =
    ModelNotFound string   \<comment> \<open>the ValueError of line 38\<close>
  | InterpreterError       \<comment> \<open>raised by tf.lite.Interpreter or allocate_tensors, lines 39-40\<close>
  | SaveError string       \<comment> \<open>raised by f.save, line 88\<close>
  | FileNotFoundError string  \<comment> \<open>raised by os.remove, lines 95 and 104\<close>
  | ArgmaxValueError       \<comment> \<open>np.argmax of an empty row, line 99\<close>
  | ArgmaxIndexError       \<comment> \<open>the subscript [0] on an empty result, line 99\<close>

text \<open>werkzeug's FileStorage, as far as the handler reads it.\<close>

record file_storage =
  filename :: string
  stream :: bytes

text \<open>The request: \<^verbatim>\<open>request.files\<close> (a multi-dict from field names to the files sent
  under that name) and \<^verbatim>\<open>request.form\<close>.\<close>

record request =
  files :: "string \<rightharpoonup> file_storage list"
  form :: "string \<rightharpoonup> string"

text \<open>A result entry is the dict appended at line 94 or 101, in key order.\<close>

type_synonym entry = "(string \<times> string) list"

datatype body = ErrorBody string | ResultsBody "entry list"

text \<open>A response is the pair returned by the handler: the JSON body and the status.\<close>

type_synonym response = "body \<times> nat"

text \<open>Calls that reach outside the process, recorded in the order they happen.\<close>

datatype event = Load string | Save string | Remove string

record world =
  storage :: "string \<rightharpoonup> bytes"
  trace :: "event list"

text \<open>
  The collaborators. \<open>'h\<close> is the state of an interpreter object, which the calls of
  lines 51-54 mutate; \<open>'t\<close> is the input tensor.
\<close>

record ('h, 't) env =
  app_dir :: string
    \<comment> \<open>os.path.dirname(__file__)\<close>
  secure_filename :: "string \<Rightarrow> string"
  new_interpreter :: "string \<Rightarrow> 'h option"
    \<comment> \<open>lines 39-40 on a model path; None when the runtime raises\<close>
  writable :: "string \<Rightarrow> bool"
    \<comment> \<open>whether opening the path for writing succeeds\<close>
  prepare :: "bytes \<Rightarrow> 't option"
    \<comment> \<open>lines 46-49 on the bytes read; None when decoding raises\<close>
  invoke :: "'h \<Rightarrow> 't \<Rightarrow> preds option \<times> 'h"
    \<comment> \<open>lines 51-54; None when the runtime raises\<close>

section \<open>Constants\<close>

definition class_labels :: "string list" where
  "class_labels = [''EarlyPreB'', ''PreB'', ''ProB'', ''Benign'']"

definition MODEL_PATHS :: "(string \<times> string) list" where
  "MODEL_PATHS =
    [(''EfficientB0'', ''models/EfficientB0.tflite''),
     (''EfficientNetB0'', ''models/EfficientNetB0.tflite''),
     (''MobileNetV2'', ''models/MobileNetV2.tflite''),
     (''NasNetMobile'', ''models/NasNetMobile.tflite'')]"

text \<open>\<^verbatim>\<open>os.path.join\<close> on two components (POSIX).\<close>

definition path_join :: "string \<Rightarrow> string \<Rightarrow> string" where
  "path_join a b =
    (if b \<noteq> [] \<and> hd b = CHR ''/'' then b
     else if a = [] \<or> last a = CHR ''/'' then a @ b
     else a @ ''/'' @ b)"

definition UPLOAD_FOLDER :: "('h, 't) env \<Rightarrow> string" where
  "UPLOAD_FOLDER env = path_join (app_dir env) ''uploads''"

section \<open>The result interpreter (lines 99-100)\<close>

text \<open>\<^verbatim>\<open>np.argmax\<close> along one row: a left-to-right scan that replaces the best index
  only on a strictly greater entry.\<close>

fun argmax_scan :: "real list \<Rightarrow> nat \<Rightarrow> real \<Rightarrow> nat \<Rightarrow> nat" where
  "argmax_scan [] i best besti = besti"
| "argmax_scan (x # xs) i best besti =
    (if best < x then argmax_scan xs (Suc i) x i
     else argmax_scan xs (Suc i) best besti)"

definition argmax :: "real list \<Rightarrow> exn + nat" where
  "argmax row =
    (case row of
       [] \<Rightarrow> Inl ArgmaxValueError
     | x # xs \<Rightarrow> Inr (argmax_scan xs 1 x 0))"

text \<open>\<^verbatim>\<open>np.argmax(preds, axis=1)\<close>: one index per row.\<close>

fun argmax_axis1 :: "preds \<Rightarrow> exn + nat list" where
  "argmax_axis1 [] = Inr []"
| "argmax_axis1 (row # rows) =
    (case argmax row of
       Inl e \<Rightarrow> Inl e
     | Inr i \<Rightarrow>
        (case argmax_axis1 rows of
           Inl e \<Rightarrow> Inl e
         | Inr js \<Rightarrow> Inr (i # js)))"

definition predicted_label :: "preds \<Rightarrow> exn + string" where
  "predicted_label p =
    (case argmax_axis1 p of
       Inl e \<Rightarrow> Inl e
     | Inr [] \<Rightarrow> Inl ArgmaxIndexError
     | Inr (pred_class_idx # _) \<Rightarrow>
        Inr (if pred_class_idx < length class_labels
             then class_labels ! pred_class_idx
             else ''Prediction index out of range.''))"

section \<open>Loading and predicting\<close>

definition load_model ::
  "('h, 't) env \<Rightarrow> string \<Rightarrow> world \<Rightarrow> (exn + 'h) \<times> world" where
  "load_model env model_name w =
    (case map_of MODEL_PATHS model_name of
       None \<Rightarrow> (Inl (ModelNotFound model_name), w)
     | Some model_path \<Rightarrow>
        (case new_interpreter env model_path of
           None \<Rightarrow> (Inl InterpreterError, w\<lparr>trace := trace w @ [Load model_path]\<rparr>)
         | Some interpreter \<Rightarrow>
            (Inr interpreter, w\<lparr>trace := trace w @ [Load model_path]\<rparr>)))"

text \<open>\<^verbatim>\<open>model_predict\<close>: every exception inside the try block becomes None.\<close>

definition model_predict ::
  "('h, 't) env \<Rightarrow> string \<Rightarrow> 'h \<Rightarrow> world \<Rightarrow> preds option \<times> 'h" where
  "model_predict env img_path interpreter w =
    (case storage w img_path of
       None \<Rightarrow> (None, interpreter)
     | Some b \<Rightarrow>
        (case prepare env b of
           None \<Rightarrow> (None, interpreter)
         | Some x \<Rightarrow> invoke env interpreter x))"

section \<open>The handler\<close>

definition save :: "('h, 't) env \<Rightarrow> file_storage \<Rightarrow> string \<Rightarrow> world \<Rightarrow> (exn + unit) \<times> world" where
  "save env f dst w =
    (if writable env dst
     then (Inr (), w\<lparr>storage := (storage w)(dst \<mapsto> stream f), trace := trace w @ [Save dst]\<rparr>)
     else (Inl (SaveError dst), w))"

definition os_remove :: "string \<Rightarrow> world \<Rightarrow> (exn + unit) \<times> world" where
  "os_remove p w =
    (case storage w p of
       None \<Rightarrow> (Inl (FileNotFoundError p), w)
     | Some _ \<Rightarrow> (Inr (), w\<lparr>storage := (storage w)(p := None), trace := trace w @ [Remove p]\<rparr>))"

definition file_path :: "('h, 't) env \<Rightarrow> file_storage \<Rightarrow> string" where
  "file_path env f = path_join (UPLOAD_FOLDER env) (secure_filename env (filename f))"

text \<open>The body of the loop for one file with a non-empty name (lines 87-104). It gives
  the entry appended to \<^verbatim>\<open>results\<close>, the interpreter as the prediction left it, and the
  world. The source appends the entry before it calls \<^verbatim>\<open>os.remove\<close>; the list is local
  to the handler, so an exception of \<^verbatim>\<open>os.remove\<close> loses it either way.\<close>

definition process_file ::
  "('h, 't) env \<Rightarrow> 'h \<Rightarrow> file_storage \<Rightarrow> world \<Rightarrow> (exn + entry) \<times> 'h \<times> world" where
  "process_file env interpreter f w =
    (case save env f (file_path env f) w of
       (Inl e, w1) \<Rightarrow> (Inl e, interpreter, w1)
     | (Inr _, w1) \<Rightarrow>
        (case model_predict env (file_path env f) interpreter w1 of
           (None, interpreter1) \<Rightarrow>
             (case os_remove (file_path env f) w1 of
                (Inl e, w2) \<Rightarrow> (Inl e, interpreter1, w2)
              | (Inr _, w2) \<Rightarrow>
                 (Inr [(''filename'', filename f), (''error'', ''Prediction failed.'')],
                  interpreter1, w2))
         | (Some p, interpreter1) \<Rightarrow>
             (case predicted_label p of
                Inl e \<Rightarrow> (Inl e, interpreter1, w1)
              | Inr result \<Rightarrow>
                 (case os_remove (file_path env f) w1 of
                    (Inl e, w2) \<Rightarrow> (Inl e, interpreter1, w2)
                  | (Inr _, w2) \<Rightarrow>
                     (Inr [(''filename'', filename f), (''predicted_class'', result)],
                      interpreter1, w2)))))"

text \<open>The loop of lines 82-104 over the slice it is given.\<close>

fun process_files ::
  "('h, 't) env \<Rightarrow> 'h \<Rightarrow> file_storage list \<Rightarrow> entry list \<Rightarrow> world
    \<Rightarrow> (exn + entry list) \<times> world" where
  "process_files env interpreter [] results w = (Inr results, w)"
| "process_files env interpreter (f # fs) results w =
    (if filename f = [] then process_files env interpreter fs results w
     else
      (case process_file env interpreter f w of
         (Inl e, interpreter1, w1) \<Rightarrow> (Inl e, w1)
       | (Inr r, interpreter1, w1) \<Rightarrow>
           process_files env interpreter1 fs (results @ [r]) w1))"

definition getlist :: "(string \<rightharpoonup> file_storage list) \<Rightarrow> string \<Rightarrow> file_storage list" where
  "getlist d k = (case d k of None \<Rightarrow> [] | Some l \<Rightarrow> l)"

definition upload ::
  "('h, 't) env \<Rightarrow> request \<Rightarrow> world \<Rightarrow> (exn + response) \<times> world" where
  "upload env req w =
    (if files req ''files'' = None then (Inr (ErrorBody ''No file part.'', 400), w)
     else
      let fl = getlist (files req) ''files'' in
      if length fl = 0 \<or> list_all (\<lambda>f. filename f = []) fl
      then (Inr (ErrorBody ''At least one image file is required.'', 400), w)
      else
       (case form req ''model'' of
          None \<Rightarrow> (Inr (ErrorBody ''Invalid model selected.'', 400), w)
        | Some selected_model \<Rightarrow>
           if map_of MODEL_PATHS selected_model = None
           then (Inr (ErrorBody ''Invalid model selected.'', 400), w)
           else
            (case load_model env selected_model w of
               (Inl e, w1) \<Rightarrow> (Inl e, w1)
             | (Inr interpreter, w1) \<Rightarrow>
                (case process_files env interpreter (take 6 fl) [] w1 of
                   (Inl e, w2) \<Rightarrow> (Inl e, w2)
                 | (Inr results, w2) \<Rightarrow> (Inr (ResultsBody results, 200), w2)))))"

section \<open>Notions used to state the properties\<close>

text \<open>What \<^verbatim>\<open>model_predict\<close> computes once the file's bytes are on storage: it depends on
  the bytes and on the interpreter, not on the path.\<close>

definition predict_bytes :: "('h, 't) env \<Rightarrow> 'h \<Rightarrow> bytes \<Rightarrow> preds option \<times> 'h" where
  "predict_bytes env h b =
    (case prepare env b of None \<Rightarrow> (None, h) | Some x \<Rightarrow> invoke env h x)"

definition failed_entry :: "file_storage \<Rightarrow> entry" where
  "failed_entry f = [(''filename'', filename f), (''error'', ''Prediction failed.'')]"

definition label_entry :: "file_storage \<Rightarrow> string \<Rightarrow> entry" where
  "label_entry f r = [(''filename'', filename f), (''predicted_class'', r)]"

text \<open>The entry the loop body records for a file when the interpreter is in state \<open>h\<close>,
  or the exception the arg-max of line 99 raises.\<close>

definition entry_at :: "('h, 't) env \<Rightarrow> 'h \<Rightarrow> file_storage \<Rightarrow> exn + entry" where
  "entry_at env h f =
    (case fst (predict_bytes env h (stream f)) of
       None \<Rightarrow> Inr (failed_entry f)
     | Some p \<Rightarrow>
        (case predicted_label p of Inl e \<Rightarrow> Inl e | Inr r \<Rightarrow> Inr (label_entry f r)))"

text \<open>The states an interpreter can be in after any number of invocations.\<close>

inductive_set reach :: "('h, 't) env \<Rightarrow> 'h \<Rightarrow> 'h set"
  for env :: "('h, 't) env" and h :: 'h where
  start: "h \<in> reach env h"
| step: "hi \<in> reach env h \<Longrightarrow> snd (invoke env hi x) \<in> reach env h"

text \<open>The files of a slice that the loop does not skip.\<close>

definition named :: "file_storage list \<Rightarrow> file_storage list" where
  "named fs = filter (\<lambda>f. filename f \<noteq> []) fs"

text \<open>The world after each of the given files was saved and removed again.\<close>

definition cleaned :: "('h, 't) env \<Rightarrow> file_storage list \<Rightarrow> world \<Rightarrow> world" where
  "cleaned env fs w =
    w\<lparr>storage := (\<lambda>p. if p \<in> set (map (file_path env) fs) then None else storage w p),
      trace := trace w @
        concat (map (\<lambda>f. [Save (file_path env f), Remove (file_path env f)]) fs)\<rparr>"

fun is_Load :: "event \<Rightarrow> bool" where
  "is_Load (Load p) = True"
| "is_Load (Save p) = False"
| "is_Load (Remove p) = False"

text \<open>The three checks of lines 68-77, as one predicate.\<close>

definition passes_validation :: "request \<Rightarrow> bool" where
  "passes_validation req =
    (case files req ''files'' of
       None \<Rightarrow> False
     | Some fl \<Rightarrow>
        \<not> (length fl = 0 \<or> list_all (\<lambda>f. filename f = []) fl) \<and>
        (case form req ''model'' of
           None \<Rightarrow> False
         | Some m \<Rightarrow> map_of MODEL_PATHS m \<noteq> None))"

text \<open>The states the interpreter is in when the loop predicts each of the given (named)
  files, starting from \<open>h\<close>.\<close>

fun states_at :: "('h, 't) env \<Rightarrow> 'h \<Rightarrow> file_storage list \<Rightarrow> 'h list" where
  "states_at env h [] = []"
| "states_at env h (f # fs) = h # states_at env (snd (predict_bytes env h (stream f))) fs"

section \<open>Concrete inputs\<close>

text \<open>An environment in which everything works: an empty file does not decode, and the
  output depends on the input tensor only.\<close>

definition demo_env :: "(nat, bytes) env" where
  "demo_env =
    \<lparr>app_dir = ''/srv/app'',
     secure_filename = map (\<lambda>c. if c = CHR ''/'' then CHR ''_'' else c),
     new_interpreter = (\<lambda>p. Some 0),
     writable = (\<lambda>p. True),
     prepare = (\<lambda>b. if b = [] then None else Some b),
     invoke = (\<lambda>h x. (Some [if length x < 2 then [1, 7, 7, 2] else [9, 1, 1, 1]], Suc h))\<rparr>"

text \<open>The same, with the model artifacts missing.\<close>

definition broken_env :: "(nat, bytes) env" where
  "broken_env = demo_env\<lparr>new_interpreter := (\<lambda>p. None)\<rparr>"

text \<open>The same, with a model of five output classes.\<close>

definition wide_env :: "(nat, bytes) env" where
  "wide_env = demo_env\<lparr>invoke := (\<lambda>h x. (Some [[1, 2, 3, 4, 9]], Suc h))\<rparr>"

definition img :: "string \<Rightarrow> bytes \<Rightarrow> file_storage" where
  "img n b = \<lparr>filename = n, stream = b\<rparr>"

definition demo_req :: request where
  "demo_req =
    \<lparr>files = [''files'' \<mapsto> [img ''a.png'' [1, 2, 3], img ''b.png'' []]],
     form = [''model'' \<mapsto> ''MobileNetV2'']\<rparr>"

definition other_req :: request where
  "other_req =
    \<lparr>files = [''files'' \<mapsto> [img ''z.png'' [5], img ''c.png'' [1, 2, 3]]],
     form = [''model'' \<mapsto> ''MobileNetV2'']\<rparr>"

definition seven_req :: request where
  "seven_req =
    \<lparr>files = [''files'' \<mapsto>
        [img [] [], img ''1.png'' [1], img ''2.png'' [2], img ''3.png'' [3],
         img ''4.png'' [4], img ''5.png'' [5], img ''6.png'' [6]]],
     form = [''model'' \<mapsto> ''MobileNetV2'']\<rparr>"

definition unnamed_req :: request where
  "unnamed_req =
    \<lparr>files = [''files'' \<mapsto> [img [] [], img [] []]],
     form = [''model'' \<mapsto> ''MobileNetV2'']\<rparr>"

definition unknown_model_req :: request where
  "unknown_model_req =
    \<lparr>files = [''files'' \<mapsto> [img ''a.png'' [1, 2, 3]]],
     form = [''model'' \<mapsto> ''ResNet50'']\<rparr>"

definition demo_world :: world where
  "demo_world = \<lparr>storage = Map.empty, trace = []\<rparr>"

text \<open>The same, with a model whose output row is empty.\<close>

definition hollow_env :: "(nat, bytes) env" where
  "hollow_env = demo_env\<lparr>invoke := (\<lambda>h x. (Some [[]], Suc h))\<rparr>"

text \<open>The same as \<open>demo_env\<close>, with a file name of dots sanitized to the empty name, as
  werkzeug does, and the upload directory itself not writable as a file.\<close>

definition strict_env :: "(nat, bytes) env" where
  "strict_env =
    demo_env\<lparr>secure_filename := (\<lambda>s. if s = ''..'' then [] else s),
             writable := (\<lambda>p. p \<noteq> ''/srv/app/uploads/'')\<rparr>"

definition dotdot_req :: request where
  "dotdot_req =
    \<lparr>files = [''files'' \<mapsto> [img ''b.png'' [], img ''..'' [1]]],
     form = [''model'' \<mapsto> ''MobileNetV2'']\<rparr>"

section \<open>The arg-max scan\<close>

text \<open>The invariant of the scan: \<open>pre\<close> is what has been read, \<open>besti\<close> the first
  position of its maximum.\<close>

lemma argmax_scan_first:
  assumes "besti < length pre" "pre ! besti = best"
    and "\<forall>j<length pre. pre ! j \<le> best" "\<forall>j<besti. pre ! j < best" "i = length pre"
  shows "argmax_scan xs i best besti < length (pre @ xs) \<and>
         (\<forall>j<length (pre @ xs). (pre @ xs) ! j \<le> (pre @ xs) ! argmax_scan xs i best besti) \<and>
         (\<forall>j<argmax_scan xs i best besti. (pre @ xs) ! j < (pre @ xs) ! argmax_scan xs i best besti)"
  using assms
proof (induction xs arbitrary: pre i best besti)
  case Nil
  then show ?case by simp
next
  case (Cons x xs)
  have e: "Suc i = length (pre @ [x])" using Cons.prems by simp
  show ?case
  proof (cases "best < x")
    case True
    have a: "length pre < length (pre @ [x])" by simp
    have b: "(pre @ [x]) ! length pre = x" by simp
    have c: "\<forall>j<length (pre @ [x]). (pre @ [x]) ! j \<le> x"
      using Cons.prems True by (auto simp: nth_append less_Suc_eq)
    have d: "\<forall>j<length pre. (pre @ [x]) ! j < x"
      using Cons.prems True by (auto simp: nth_append)
    from Cons.IH[OF a b c d e] True Cons.prems(5) show ?thesis by simp
  next
    case False
    have a: "besti < length (pre @ [x])" using Cons.prems by simp
    have b: "(pre @ [x]) ! besti = best" using Cons.prems by (simp add: nth_append)
    have c: "\<forall>j<length (pre @ [x]). (pre @ [x]) ! j \<le> best"
      using Cons.prems False by (auto simp: nth_append less_Suc_eq)
    have d: "\<forall>j<besti. (pre @ [x]) ! j < best"
      using Cons.prems by (auto simp: nth_append)
    from Cons.IH[OF a b c d e] False show ?thesis by simp
  qed
qed

lemma argmax_first:
  assumes "row \<noteq> []"
  shows "\<exists>k. argmax row = Inr k \<and> k < length row \<and> (\<forall>j<length row. row ! j \<le> row ! k) \<and>
         (\<forall>j<k. row ! j < row ! k)"
proof -
  obtain x xs where r: "row = x # xs" using assms by (cases row) auto
  have "argmax_scan xs 1 x 0 < length ([x] @ xs) \<and>
         (\<forall>j<length ([x] @ xs). ([x] @ xs) ! j \<le> ([x] @ xs) ! argmax_scan xs 1 x 0) \<and>
         (\<forall>j<argmax_scan xs 1 x 0. ([x] @ xs) ! j < ([x] @ xs) ! argmax_scan xs 1 x 0)"
    by (rule argmax_scan_first) auto
  then show ?thesis by (simp add: r argmax_def)
qed

lemma argmax_axis1_ok:
  "[] \<notin> set rows \<Longrightarrow> \<exists>js. argmax_axis1 rows = Inr js \<and> length js = length rows"
proof (induction rows)
  case Nil
  then show ?case by simp
next
  case (Cons r rows)
  then have "r \<noteq> []" by auto
  from argmax_first[OF this] obtain k where "argmax r = Inr k" by blast
  with Cons show ?case by auto
qed

lemma predicted_label_eq:
  assumes "argmax row = Inr k" "[] \<notin> set rows"
  shows "predicted_label (row # rows) =
     Inr (if k < length class_labels then class_labels ! k else ''Prediction index out of range.'')"
proof -
  from argmax_axis1_ok[OF assms(2)] obtain js where "argmax_axis1 rows = Inr js" by blast
  with assms(1) show ?thesis by (simp add: predicted_label_def)
qed

lemma predicted_label_shaped:
  assumes "p \<noteq> []" "[] \<notin> set p"
  shows "\<exists>r. predicted_label p = Inr r"
proof -
  obtain row rows where p: "p = row # rows" using assms(1) by (cases p) auto
  with assms(2) have "row \<noteq> []" "[] \<notin> set rows" by auto
  from argmax_first[OF this(1)] obtain k where "argmax row = Inr k" by blast
  from predicted_label_eq[OF this \<open>[] \<notin> set rows\<close>] p show ?thesis by blast
qed

section \<open>One file\<close>

lemma model_predict_saved:
  "storage w p = Some b \<Longrightarrow> model_predict env p h w = predict_bytes env h b"
  by (simp add: model_predict_def predict_bytes_def)

lemma cleaned_one:
  "cleaned env [f] w =
     w\<lparr>storage := (storage w)(file_path env f := None),
       trace := trace w @ [Save (file_path env f), Remove (file_path env f)]\<rparr>"
  by (auto simp: cleaned_def fun_eq_iff)

lemma cleaned_Cons: "cleaned env fs (cleaned env [f] w) = cleaned env (f # fs) w"
  by (auto simp: cleaned_def fun_eq_iff)

lemma cleaned_Nil: "cleaned env [] w = w"
  by (simp add: cleaned_def)

text \<open>The loop body once the save has succeeded: the saved file is removed on both
  branches that record an entry, and stays when the arg-max raises.\<close>

lemma process_file_eq:
  assumes "writable env (file_path env f)"
  shows "process_file env h f w =
    (case predict_bytes env h (stream f) of
       (None, h1) \<Rightarrow> (Inr (failed_entry f), h1, cleaned env [f] w)
     | (Some p, h1) \<Rightarrow>
        (case predicted_label p of
           Inl e \<Rightarrow> (Inl e, h1,
              w\<lparr>storage := (storage w)(file_path env f \<mapsto> stream f),
                trace := trace w @ [Save (file_path env f)]\<rparr>)
         | Inr r \<Rightarrow> (Inr (label_entry f r), h1, cleaned env [f] w)))"
  using assms
  by (simp add: process_file_def save_def os_remove_def model_predict_saved cleaned_one
      failed_entry_def label_entry_def split: prod.splits option.splits sum.splits)

lemma process_file_unwritable:
  "\<not> writable env (file_path env f) \<Longrightarrow>
   process_file env h f w = (Inl (SaveError (file_path env f)), h, w)"
  by (simp add: process_file_def save_def)

lemma process_file_Inr:
  assumes "process_file env h f w = (Inr r, h1, w1)"
  shows "entry_at env h f = Inr r \<and> h1 = snd (predict_bytes env h (stream f)) \<and>
         w1 = cleaned env [f] w"
proof (cases "writable env (file_path env f)")
  case True
  from assms show ?thesis unfolding process_file_eq[OF True]
    by (auto simp: entry_at_def split: prod.splits option.splits sum.splits)
next
  case False
  from assms show ?thesis unfolding process_file_unwritable[OF False] by simp
qed

lemma predict_bytes_reach: "snd (predict_bytes env h b) \<in> reach env h"
  by (auto simp: predict_bytes_def reach.start reach.step split: option.splits)

lemma reach_trans: "h2 \<in> reach env h1 \<Longrightarrow> h1 \<in> reach env h \<Longrightarrow> h2 \<in> reach env h"
  by (induction rule: reach.induct) (auto intro: reach.step)

lemma predict_bytes_shaped:
  assumes "\<forall>h x p h'. invoke env h x = (Some p, h') \<longrightarrow> p \<noteq> [] \<and> [] \<notin> set p"
    and "predict_bytes env h b = (Some p, h1)"
  shows "\<exists>r. predicted_label p = Inr r"
proof -
  from assms(2) obtain x where "invoke env h x = (Some p, h1)"
    by (auto simp: predict_bytes_def split: option.splits)
  with assms(1) have "p \<noteq> [] \<and> [] \<notin> set p" by blast
  then show ?thesis using predicted_label_shaped by blast
qed

lemma process_file_ok:
  assumes "writable env (file_path env f)"
    and "\<forall>h x p h'. invoke env h x = (Some p, h') \<longrightarrow> p \<noteq> [] \<and> [] \<notin> set p"
  shows "\<exists>r. process_file env h f w =
                (Inr r, snd (predict_bytes env h (stream f)), cleaned env [f] w)"
proof (cases "predict_bytes env h (stream f)")
  case (Pair o1 h1)
  show ?thesis
  proof (cases o1)
    case None
    with Pair assms(1) show ?thesis by (simp add: process_file_eq)
  next
    case (Some p)
    with Pair predict_bytes_shaped[OF assms(2)] obtain r where "predicted_label p = Inr r"
      by blast
    with Pair Some assms(1) show ?thesis by (simp add: process_file_eq)
  qed
qed

lemma process_file_trace:
  "\<exists>evs. trace (snd (snd (process_file env h f w))) = trace w @ evs \<and>
         (\<forall>e\<in>set evs. \<not> is_Load e)"
  by (auto simp: process_file_def save_def os_remove_def
      split: prod.splits option.splits sum.splits if_splits)

section \<open>The loop\<close>

text \<open>Whenever the loop returns, it has appended one entry per named file, each the
  entry of that file at some state of the interpreter, and has removed every file it
  saved.\<close>

lemma process_files_Inr:
  "process_files env h fs results w = (Inr out, w') \<Longrightarrow>
   \<exists>rs. out = results @ rs \<and>
        list_all2 (\<lambda>f r. \<exists>hi\<in>reach env h. entry_at env hi f = Inr r) (named fs) rs \<and>
        w' = cleaned env (named fs) w"
proof (induction fs arbitrary: h results w)
  case Nil
  then show ?case by (simp add: named_def cleaned_Nil)
next
  case (Cons f fs)
  show ?case
  proof (cases "filename f = []")
    case True
    with Cons.prems have "process_files env h fs results w = (Inr out, w')" by simp
    from Cons.IH[OF this] True show ?thesis by (simp add: named_def)
  next
    case False
    then have nm: "named (f # fs) = f # named fs" by (simp add: named_def)
    obtain o1 h1 w1 where pf: "process_file env h f w = (o1, h1, w1)"
      by (cases "process_file env h f w") auto
    show ?thesis
    proof (cases o1)
      case (Inl e)
      with Cons.prems False pf show ?thesis by simp
    next
      case (Inr r)
      with pf have "process_file env h f w = (Inr r, h1, w1)" by simp
      from process_file_Inr[OF this] have ea: "entry_at env h f = Inr r"
        and h1: "h1 = snd (predict_bytes env h (stream f))"
        and w1: "w1 = cleaned env [f] w" by simp_all
      from Cons.prems False pf Inr
      have "process_files env h1 fs (results @ [r]) w1 = (Inr out, w')" by simp
      from Cons.IH[OF this] obtain rs where out: "out = (results @ [r]) @ rs"
        and rel: "list_all2 (\<lambda>f r. \<exists>hi\<in>reach env h1. entry_at env hi f = Inr r) (named fs) rs"
        and w': "w' = cleaned env (named fs) w1" by blast
      have h1r: "h1 \<in> reach env h" unfolding h1 by (rule predict_bytes_reach)
      have rel': "list_all2 (\<lambda>f r. \<exists>hi\<in>reach env h. entry_at env hi f = Inr r) (named fs) rs"
        using rel by (rule list_all2_mono) (blast intro: reach_trans[OF _ h1r])
      have "list_all2 (\<lambda>f r. \<exists>hi\<in>reach env h. entry_at env hi f = Inr r)
              (named (f # fs)) (r # rs)"
        using rel' ea reach.start[of h env] by (auto simp: nm)
      moreover have "out = results @ (r # rs)" using out by simp
      moreover have "w' = cleaned env (named (f # fs)) w" by (simp add: w' w1 nm cleaned_Cons)
      ultimately show ?thesis by blast
    qed
  qed
qed

text \<open>The loop returns when every save succeeds and no output tensor is empty.\<close>

lemma process_files_returns:
  assumes "\<forall>f\<in>set (named fs). writable env (file_path env f)"
    and "\<forall>h x p h'. invoke env h x = (Some p, h') \<longrightarrow> p \<noteq> [] \<and> [] \<notin> set p"
  shows "\<exists>out w'. process_files env h fs results w = (Inr out, w')"
  using assms(1)
proof (induction fs arbitrary: h results w)
  case Nil
  then show ?case by simp
next
  case (Cons f fs)
  show ?case
  proof (cases "filename f = []")
    case True
    with Cons.prems have "\<forall>f\<in>set (named fs). writable env (file_path env f)"
      by (simp add: named_def)
    from Cons.IH[OF this, of h results w] True show ?thesis by simp
  next
    case False
    with Cons.prems have wr: "writable env (file_path env f)"
      and rest: "\<forall>f\<in>set (named fs). writable env (file_path env f)"
      by (simp_all add: named_def)
    from process_file_ok[OF wr assms(2), of h w] obtain r where
      pf: "process_file env h f w =
            (Inr r, snd (predict_bytes env h (stream f)), cleaned env [f] w)" by blast
    from Cons.IH[OF rest, of "snd (predict_bytes env h (stream f))" "results @ [r]"
        "cleaned env [f] w"] False pf
    show ?thesis by simp
  qed
qed

lemma process_files_run:
  assumes "\<forall>f\<in>set (named fs). writable env (file_path env f)"
    and "\<forall>h x p h'. invoke env h x = (Some p, h') \<longrightarrow> p \<noteq> [] \<and> [] \<notin> set p"
  shows "\<exists>rs. process_files env h fs results w = (Inr (results @ rs), cleaned env (named fs) w)
          \<and> list_all2 (\<lambda>f r. \<exists>hi\<in>reach env h. entry_at env hi f = Inr r) (named fs) rs"
proof -
  from process_files_returns[OF assms, of h results w] obtain out w' where
    r: "process_files env h fs results w = (Inr out, w')" by blast
  from process_files_Inr[OF r] r show ?thesis by blast
qed

lemma process_files_trace:
  "\<exists>evs. trace (snd (process_files env h fs results w)) = trace w @ evs \<and>
         (\<forall>e\<in>set evs. \<not> is_Load e)"
proof (induction fs arbitrary: h results w)
  case Nil
  then show ?case by simp
next
  case (Cons f fs)
  show ?case
  proof (cases "filename f = []")
    case True
    with Cons show ?thesis by simp
  next
    case False
    obtain o1 h1 w1 where pf: "process_file env h f w = (o1, h1, w1)"
      by (cases "process_file env h f w") auto
    from process_file_trace[of env h f w] pf obtain evs1 where
      t1: "trace w1 = trace w @ evs1" "\<forall>e\<in>set evs1. \<not> is_Load e" by auto
    show ?thesis
    proof (cases o1)
      case (Inl e)
      with False pf t1 show ?thesis by simp
    next
      case (Inr r)
      from Cons.IH[of h1 "results @ [r]" w1] obtain evs2 where
        "trace (snd (process_files env h1 fs (results @ [r]) w1)) = trace w1 @ evs2"
        "\<forall>e\<in>set evs2. \<not> is_Load e" by blast
      with False pf Inr t1 have
        "trace (snd (process_files env h (f # fs) results w)) = trace w @ (evs1 @ evs2)"
        "\<forall>e\<in>set (evs1 @ evs2). \<not> is_Load e" by auto
      then show ?thesis by blast
    qed
  qed
qed

section \<open>The handler\<close>

lemma upload_rejected:
  "\<not> passes_validation req \<Longrightarrow>
   upload env req w = (Inr (ErrorBody ''No file part.'', 400), w) \<or>
   upload env req w = (Inr (ErrorBody ''At least one image file is required.'', 400), w) \<or>
   upload env req w = (Inr (ErrorBody ''Invalid model selected.'', 400), w)"
  by (auto simp: passes_validation_def upload_def getlist_def Let_def
      split: option.splits if_splits)

lemma passes_validationD:
  assumes "passes_validation req"
  obtains fl m path where "files req ''files'' = Some fl"
    "\<not> list_all (\<lambda>f. filename f = []) fl" "form req ''model'' = Some m"
    "map_of MODEL_PATHS m = Some path"
  using assms by (auto simp: passes_validation_def split: option.splits)

lemma upload_validated:
  assumes "files req ''files'' = Some fl" "\<not> list_all (\<lambda>f. filename f = []) fl"
    and "form req ''model'' = Some m" "map_of MODEL_PATHS m = Some path"
  shows "upload env req w =
    (case new_interpreter env path of
       None \<Rightarrow> (Inl InterpreterError, w\<lparr>trace := trace w @ [Load path]\<rparr>)
     | Some h0 \<Rightarrow>
        (case process_files env h0 (take 6 fl) [] (w\<lparr>trace := trace w @ [Load path]\<rparr>) of
           (Inl e, w2) \<Rightarrow> (Inl e, w2)
         | (Inr results, w2) \<Rightarrow> (Inr (ResultsBody results, 200), w2)))"
proof -
  have "fl \<noteq> []" using assms(2) by auto
  then show ?thesis using assms
    by (simp add: upload_def getlist_def load_model_def split: option.splits)
qed

lemma upload_run:
  assumes "files req ''files'' = Some fl" "\<not> list_all (\<lambda>f. filename f = []) fl"
    and "form req ''model'' = Some m" "map_of MODEL_PATHS m = Some path"
    and "new_interpreter env path = Some h0"
    and "\<forall>f\<in>set (named (take 6 fl)). writable env (file_path env f)"
    and "\<forall>h x p h'. invoke env h x = (Some p, h') \<longrightarrow> p \<noteq> [] \<and> [] \<notin> set p"
  shows "\<exists>rs. upload env req w =
            (Inr (ResultsBody rs, 200),
             cleaned env (named (take 6 fl)) (w\<lparr>trace := trace w @ [Load path]\<rparr>))
          \<and> list_all2 (\<lambda>f r. \<exists>hi\<in>reach env h0. entry_at env hi f = Inr r) (named (take 6 fl)) rs"
proof -
  from process_files_run[OF assms(6,7), of h0 "[]" "w\<lparr>trace := trace w @ [Load path]\<rparr>"]
  obtain rs where
    "process_files env h0 (take 6 fl) [] (w\<lparr>trace := trace w @ [Load path]\<rparr>)
       = (Inr rs, cleaned env (named (take 6 fl)) (w\<lparr>trace := trace w @ [Load path]\<rparr>))"
    and "list_all2 (\<lambda>f r. \<exists>hi\<in>reach env h0. entry_at env hi f = Inr r) (named (take 6 fl)) rs"
    by auto
  then show ?thesis
    using upload_validated[OF assms(1-4), of env w] assms(5) by simp
qed

text \<open>What a response with results tells about the request and the run.\<close>

lemma upload_results:
  assumes "upload env req w = (Inr (ResultsBody rs, c), w')"
  shows "\<exists>fl m path h0. files req ''files'' = Some fl \<and> form req ''model'' = Some m \<and>
           map_of MODEL_PATHS m = Some path \<and> new_interpreter env path = Some h0 \<and>
           list_all2 (\<lambda>f r. \<exists>hi\<in>reach env h0. entry_at env hi f = Inr r) (named (take 6 fl)) rs \<and>
           w' = cleaned env (named (take 6 fl)) (w\<lparr>trace := trace w @ [Load path]\<rparr>)"
proof (cases "passes_validation req")
  case False
  from upload_rejected[OF False, of env w] assms show ?thesis by auto
next
  case True
  then obtain fl m path where v: "files req ''files'' = Some fl"
      "\<not> list_all (\<lambda>f. filename f = []) fl" "form req ''model'' = Some m"
      "map_of MODEL_PATHS m = Some path"
    by (rule passes_validationD)
  let ?w1 = "w\<lparr>trace := trace w @ [Load path]\<rparr>"
  from assms obtain h0 where h0: "new_interpreter env path = Some h0"
    unfolding upload_validated[OF v] by (auto split: option.splits)
  with assms have "process_files env h0 (take 6 fl) [] ?w1 = (Inr rs, w')"
    unfolding upload_validated[OF v] by (auto split: prod.splits sum.splits)
  from process_files_Inr[OF this] v(1,3,4) h0 show ?thesis by auto
qed






text \<open>Whenever the loop returns, the entry of each named file is the one of that file at
  the state the interpreter was then in.\<close>

lemma process_files_states:
  "process_files env h fs results w = (Inr out, w') \<Longrightarrow>
   \<exists>rs. out = results @ rs \<and> length rs = length (named fs) \<and>
        (\<forall>i<length rs. entry_at env (states_at env h (named fs) ! i) (named fs ! i) = Inr (rs ! i))"
proof (induction fs arbitrary: h results w)
  case Nil
  then show ?case by (simp add: named_def)
next
  case (Cons f fs)
  show ?case
  proof (cases "filename f = []")
    case True
    with Cons.prems have "process_files env h fs results w = (Inr out, w')" by simp
    from Cons.IH[OF this] True show ?thesis by (simp add: named_def)
  next
    case False
    then have nm: "named (f # fs) = f # named fs" by (simp add: named_def)
    obtain o1 h1 w1 where pf: "process_file env h f w = (o1, h1, w1)"
      by (cases "process_file env h f w") auto
    show ?thesis
    proof (cases o1)
      case (Inl e)
      with Cons.prems False pf show ?thesis by simp
    next
      case (Inr r)
      with pf have "process_file env h f w = (Inr r, h1, w1)" by simp
      from process_file_Inr[OF this] have ea: "entry_at env h f = Inr r"
        and h1: "h1 = snd (predict_bytes env h (stream f))" by simp_all
      from Cons.prems False pf Inr
      have "process_files env h1 fs (results @ [r]) w1 = (Inr out, w')" by simp
      from Cons.IH[OF this] obtain rs where out: "out = (results @ [r]) @ rs"
        and len: "length rs = length (named fs)"
        and each: "\<forall>i<length rs.
            entry_at env (states_at env h1 (named fs) ! i) (named fs ! i) = Inr (rs ! i)"
        by blast
      have "entry_at env (states_at env h (named (f # fs)) ! i) (named (f # fs) ! i)
              = Inr ((r # rs) ! i)" if "i < length (r # rs)" for i
      proof (cases i)
        case 0
        then show ?thesis using ea by (simp add: nm)
      next
        case (Suc j)
        with that have "j < length rs" by simp
        with each Suc show ?thesis by (simp add: nm h1)
      qed
      moreover have "out = results @ (r # rs)" using out by simp
      moreover have "length (r # rs) = length (named (f # fs))" using len by (simp add: nm)
      ultimately show ?thesis by blast
    qed
  qed
qed

text \<open>The two kinds of entry.\<close>

lemma entry_at_failed:
  "entry_at env h f = Inr r \<Longrightarrow> fst (predict_bytes env h (stream f)) = None \<Longrightarrow>
   r = [(''filename'', filename f), (''error'', ''Prediction failed.'')]"
  by (auto simp: entry_at_def failed_entry_def)

lemma entry_at_labelled:
  "entry_at env h f = Inr r \<Longrightarrow> fst (predict_bytes env h (stream f)) \<noteq> None \<Longrightarrow>
   map_of r ''error'' = None"
  by (auto simp: entry_at_def label_entry_def split: sum.splits)

section \<open>Entries\<close>

lemma entry_at_filename: "entry_at env h f = Inr r \<Longrightarrow> map_of r ''filename'' = Some (filename f)"
  by (auto simp: entry_at_def failed_entry_def label_entry_def split: option.splits sum.splits)

lemma entries_filenames:
  "list_all2 (\<lambda>f r. \<exists>hi\<in>reach env h0. entry_at env hi f = Inr r) fs rs \<Longrightarrow>
   map (\<lambda>e. map_of e ''filename'') rs = map (\<lambda>f. Some (filename f)) fs"
  by (induction rule: list_all2_induct) (auto dest: entry_at_filename)

lemma entry_at_payload:
  assumes "entry_at env h f = Inr r" "entry_at env h g = Inr s" "stream f = stream g"
  shows "map_of r ''predicted_class'' = map_of s ''predicted_class'' \<and>
         map_of r ''error'' = map_of s ''error''"
  using assms
  by (auto simp: entry_at_def failed_entry_def label_entry_def split: option.splits sum.splits)

text \<open>A backend whose invocations leave nothing behind that changes a later output gives,
  in every state it can reach, the outputs of the state it started in.\<close>

lemma det_reach:
  assumes "\<forall>h x x'. fst (invoke env (snd (invoke env h x)) x') = fst (invoke env h x')"
    and "hi \<in> reach env h0"
  shows "fst (invoke env hi x) = fst (invoke env h0 x)"
  using assms(2)
proof (induction arbitrary: x rule: reach.induct)
  case start
  show ?case by simp
next
  case (step hi y)
  from assms(1) have "fst (invoke env (snd (invoke env hi y)) x) = fst (invoke env hi x)"
    by blast
  with step.IH show ?case by simp
qed

lemma det_entry_at:
  assumes "\<forall>h x x'. fst (invoke env (snd (invoke env h x)) x') = fst (invoke env h x')"
    and "hi \<in> reach env h0"
  shows "entry_at env hi f = entry_at env h0 f"
proof -
  have "fst (predict_bytes env hi (stream f)) = fst (predict_bytes env h0 (stream f))"
    using det_reach[OF assms] by (simp add: predict_bytes_def split: option.splits)
  then show ?thesis by (simp add: entry_at_def)
qed

section \<open>Facts about the concrete inputs\<close>

lemmas eval_defs = upload_def getlist_def load_model_def process_file_def save_def os_remove_def
  model_predict_def predicted_label_def argmax_def class_labels_def MODEL_PATHS_def file_path_def
  UPLOAD_FOLDER_def path_join_def demo_env_def broken_env_def wide_env_def img_def demo_req_def
  other_req_def seven_req_def unnamed_req_def unknown_model_req_def demo_world_def
  hollow_env_def strict_env_def dotdot_req_def

lemma demo_shaped:
  "\<forall>h x p h'. invoke demo_env h x = (Some p, h') \<longrightarrow> p \<noteq> [] \<and> [] \<notin> set p"
  by (auto simp: demo_env_def)

lemma demo_model: "map_of MODEL_PATHS ''MobileNetV2'' = Some ''models/MobileNetV2.tflite''"
  by (simp add: MODEL_PATHS_def)

lemma demo_loads: "new_interpreter demo_env ''models/MobileNetV2.tflite'' \<noteq> None"
  by (simp add: demo_env_def)

lemma demo_files: "files demo_req ''files'' = Some [img ''a.png'' [1, 2, 3], img ''b.png'' []]"
  by (simp add: demo_req_def)

lemma demo_form: "form demo_req ''model'' = Some ''MobileNetV2''"
  by (simp add: demo_req_def)

lemma demo_named:
  "named (take 6 [img ''a.png'' [1, 2, 3], img ''b.png'' []]) =
     [img ''a.png'' [1, 2, 3], img ''b.png'' []]"
  by (simp add: named_def img_def)

lemma demo_response:
  "fst (upload demo_env demo_req demo_world) =
     Inr (ResultsBody [[(''filename'', ''a.png''), (''predicted_class'', ''EarlyPreB'')],
                       [(''filename'', ''b.png''), (''error'', ''Prediction failed.'')]], 200)"
  by (simp add: eval_defs)


section \<open>The claims\<close>

text \<open>
  C1, as the code has it. A request that passes validation with \<open>N\<close> files, all named,
  \<open>1 \<le> N \<le> 6\<close>, is answered with status 200 and \<open>N\<close> entries, in upload order, each
  under the original file name, provided that the interpreter loads, that every file can
  be written to its temporary path and that no output tensor is empty. The handler catches
  none of these three failures.
\<close>

theorem upload_valid_request_results:
  assumes "files req ''files'' = Some fl" "1 \<le> length fl" "length fl \<le> 6"
    and "\<forall>f\<in>set fl. filename f \<noteq> []"
    and "form req ''model'' = Some m" "map_of MODEL_PATHS m = Some path"
    and "new_interpreter env path \<noteq> None"
    and "\<forall>f\<in>set fl. writable env (file_path env f)"
    and "\<forall>h x p h'. invoke env h x = (Some p, h') \<longrightarrow> p \<noteq> [] \<and> [] \<notin> set p"
  shows "\<exists>rs w'. upload env req w = (Inr (ResultsBody rs, 200), w') \<and>
           length rs = length fl \<and>
           map (\<lambda>e. map_of e ''filename'') rs = map (\<lambda>f. Some (filename f)) fl"
proof -
  have nm: "named (take 6 fl) = fl" using assms(3,4) by (simp add: named_def)
  have ne: "\<not> list_all (\<lambda>f. filename f = []) fl"
    using assms(2,4) by (cases fl) auto
  from assms(7) obtain h0 where h0: "new_interpreter env path = Some h0" by auto
  have wr: "\<forall>f\<in>set (named (take 6 fl)). writable env (file_path env f)"
    using assms(8) nm by simp
  from upload_run[OF assms(1) ne assms(5,6) h0 wr assms(9), of w] obtain rs where
    up: "upload env req w =
            (Inr (ResultsBody rs, 200),
             cleaned env (named (take 6 fl)) (w\<lparr>trace := trace w @ [Load path]\<rparr>))"
    and rel: "list_all2 (\<lambda>f r. \<exists>hi\<in>reach env h0. entry_at env hi f = Inr r) fl rs"
    unfolding nm by blast
  from rel have "length rs = length fl" by (simp add: list_all2_lengthD)
  moreover note entries_filenames[OF rel]
  ultimately show ?thesis using up by blast
qed

text \<open>A request with two named files in an environment where everything works.\<close>

theorem upload_valid_request_results_witness:
  "files demo_req ''files'' = Some [img ''a.png'' [1, 2, 3], img ''b.png'' []] \<and>
   form demo_req ''model'' = Some ''MobileNetV2'' \<and>
   (\<exists>rs w'. upload demo_env demo_req demo_world = (Inr (ResultsBody rs, 200), w') \<and>
      length rs = 2 \<and>
      map (\<lambda>e. map_of e ''filename'') rs = [Some ''a.png'', Some ''b.png''])"
proof -
  let ?fl = "[img ''a.png'' [1, 2, 3], img ''b.png'' []]"
  have h2: "1 \<le> length ?fl" and h3: "length ?fl \<le> 6" by simp_all
  have h4: "\<forall>f\<in>set ?fl. filename f \<noteq> []" by (simp add: img_def)
  have h8: "\<forall>f\<in>set ?fl. writable demo_env (file_path demo_env f)" by (simp add: demo_env_def)
  from upload_valid_request_results[OF demo_files h2 h3 h4 demo_form demo_model demo_loads h8
      demo_shaped, of demo_world]
  obtain rs w' where
    "upload demo_env demo_req demo_world = (Inr (ResultsBody rs, 200), w')"
    "length rs = length ?fl"
    "map (\<lambda>e. map_of e ''filename'') rs = map (\<lambda>f. Some (filename f)) ?fl"
    by blast
  then have "upload demo_env demo_req demo_world = (Inr (ResultsBody rs, 200), w') \<and>
      length rs = 2 \<and>
      map (\<lambda>e. map_of e ''filename'') rs = [Some ''a.png'', Some ''b.png'']"
    by (simp add: img_def)
  then have "\<exists>rs w'. upload demo_env demo_req demo_world = (Inr (ResultsBody rs, 200), w') \<and>
      length rs = 2 \<and>
      map (\<lambda>e. map_of e ''filename'') rs = [Some ''a.png'', Some ''b.png'']"
    by (intro exI)
  with demo_files demo_form show ?thesis by (intro conjI)
qed

text \<open>
  C1 as stated fails: the same request, which passes validation with two named files and
  a registered model, is not answered with status 200 when the interpreter cannot be
  built. The exception of line 80 leaves the handler.
\<close>

theorem upload_valid_request_load_failure:
  "files demo_req ''files'' = Some [img ''a.png'' [1, 2, 3], img ''b.png'' []] \<and>
   form demo_req ''model'' = Some ''MobileNetV2'' \<and>
   map_of MODEL_PATHS ''MobileNetV2'' = Some ''models/MobileNetV2.tflite'' \<and>
   upload broken_env demo_req demo_world =
     (Inl InterpreterError, demo_world\<lparr>trace := [Load ''models/MobileNetV2.tflite'']\<rparr>)"
  by (simp add: eval_defs)

text \<open>
  C2, as the code has it. Of a file list with more than six entries the loop reads the
  first six positions only (the slice of line 82); the entries among them that have a
  name give the result entries, in order, and nothing else is saved. An entry without a
  name is skipped and does take one of the six positions. (Under the conditions of C1:
  the interpreter loads, the saves succeed, no output tensor is empty.)
\<close>

theorem upload_first_six_positions:
  assumes "files req ''files'' = Some fl" "6 < length fl"
    and "\<exists>f\<in>set fl. filename f \<noteq> []"
    and "form req ''model'' = Some m" "map_of MODEL_PATHS m = Some path"
    and "new_interpreter env path \<noteq> None"
    and "\<forall>f\<in>set (take 6 fl). filename f \<noteq> [] \<longrightarrow> writable env (file_path env f)"
    and "\<forall>h x p h'. invoke env h x = (Some p, h') \<longrightarrow> p \<noteq> [] \<and> [] \<notin> set p"
  shows "\<exists>rs w'. upload env req w = (Inr (ResultsBody rs, 200), w') \<and>
           map (\<lambda>e. map_of e ''filename'') rs =
             map (\<lambda>f. Some (filename f)) (filter (\<lambda>f. filename f \<noteq> []) (take 6 fl)) \<and>
           [e \<leftarrow> drop (length (trace w)) (trace w'). \<not> is_Load e] =
             concat (map (\<lambda>f. [Save (file_path env f), Remove (file_path env f)])
               (filter (\<lambda>f. filename f \<noteq> []) (take 6 fl)))"
proof -
  have ne: "\<not> list_all (\<lambda>f. filename f = []) fl"
    using assms(3) by (auto simp: list_all_iff)
  from assms(6) obtain h0 where h0: "new_interpreter env path = Some h0" by auto
  have wr: "\<forall>f\<in>set (named (take 6 fl)). writable env (file_path env f)"
    using assms(7) by (simp add: named_def)
  from upload_run[OF assms(1) ne assms(4,5) h0 wr assms(8), of w] obtain rs where
    up: "upload env req w =
            (Inr (ResultsBody rs, 200),
             cleaned env (named (take 6 fl)) (w\<lparr>trace := trace w @ [Load path]\<rparr>))"
    and rel: "list_all2 (\<lambda>f r. \<exists>hi\<in>reach env h0. entry_at env hi f = Inr r) (named (take 6 fl)) rs"
    by blast
  have "[e \<leftarrow> concat (map (\<lambda>f. [Save (file_path env f), Remove (file_path env f)]) fs). \<not> is_Load e]
        = concat (map (\<lambda>f. [Save (file_path env f), Remove (file_path env f)]) fs)" for fs
    by (induction fs) auto
  then have "[e \<leftarrow> drop (length (trace w))
                 (trace (cleaned env (named (take 6 fl)) (w\<lparr>trace := trace w @ [Load path]\<rparr>))).
               \<not> is_Load e] =
             concat (map (\<lambda>f. [Save (file_path env f), Remove (file_path env f)])
               (named (take 6 fl)))"
    by (simp add: cleaned_def)
  with entries_filenames[OF rel] up show ?thesis unfolding named_def by blast
qed

text \<open>Seven files, the first without a name: five entries.\<close>

theorem upload_first_six_positions_witness:
  "6 < length (getlist (files seven_req) ''files'') \<and>
   (\<exists>rs w'. upload demo_env seven_req demo_world = (Inr (ResultsBody rs, 200), w') \<and>
      map (\<lambda>e. map_of e ''filename'') rs =
        [Some ''1.png'', Some ''2.png'', Some ''3.png'', Some ''4.png'', Some ''5.png''])"
proof -
  let ?fl = "[img [] [], img ''1.png'' [1], img ''2.png'' [2], img ''3.png'' [3],
      img ''4.png'' [4], img ''5.png'' [5], img ''6.png'' [6]]"
  have h1: "files seven_req ''files'' = Some ?fl" by (simp add: seven_req_def)
  have h2: "6 < length ?fl" by simp
  have h3: "\<exists>f\<in>set ?fl. filename f \<noteq> []" by (simp add: img_def)
  have h4: "form seven_req ''model'' = Some ''MobileNetV2''" by (simp add: seven_req_def)
  have h7: "\<forall>f\<in>set (take 6 ?fl). filename f \<noteq> [] \<longrightarrow> writable demo_env (file_path demo_env f)"
    by (simp add: demo_env_def)
  from upload_first_six_positions[OF h1 h2 h3 h4 demo_model demo_loads h7 demo_shaped,
      of demo_world] h1
  show ?thesis by (auto simp: img_def getlist_def)
qed

text \<open>
  C2 as stated fails: of these seven files the last six have a name, so the claim has all
  six of them processed; the code records five entries and none for \<^verbatim>\<open>6.png\<close>, because
  the unnamed first file took one of the six positions.
\<close>

theorem upload_unnamed_file_takes_a_position:
  "getlist (files seven_req) ''files'' =
     [img [] [], img ''1.png'' [1], img ''2.png'' [2], img ''3.png'' [3],
      img ''4.png'' [4], img ''5.png'' [5], img ''6.png'' [6]] \<and>
   fst (upload demo_env seven_req demo_world) =
     Inr (ResultsBody [[(''filename'', ''1.png''), (''predicted_class'', ''PreB'')],
                       [(''filename'', ''2.png''), (''predicted_class'', ''PreB'')],
                       [(''filename'', ''3.png''), (''predicted_class'', ''PreB'')],
                       [(''filename'', ''4.png''), (''predicted_class'', ''PreB'')],
                       [(''filename'', ''5.png''), (''predicted_class'', ''PreB'')]], 200)"
  by (simp add: eval_defs)




text \<open>
  C4, as the code has it. A file whose preprocessing or inference fails
  (\<^verbatim>\<open>model_predict\<close> gives None) gets the entry with the error text in place of a label,
  its temporary file is removed, and the loop goes on with the remaining files from there.
  The request is answered with status 200 provided that the interpreter loaded, that every
  processed file can be saved and that no output tensor is empty: then there is one entry
  for every named file among the first six, the error entry for each file whose prediction
  failed in the state the interpreter was then in, and an entry without an error for the
  others: a partial success.
\<close>

theorem prediction_failure_per_file:
  "(filename f \<noteq> [] \<and> writable env (file_path env f) \<and>
      fst (predict_bytes env h (stream f)) = None \<longrightarrow>
      process_files env h (f # rest) results w0 =
        process_files env (snd (predict_bytes env h (stream f))) rest
          (results @ [[(''filename'', filename f), (''error'', ''Prediction failed.'')]])
          (w0\<lparr>storage := (storage w0)(file_path env f := None),
              trace := trace w0 @ [Save (file_path env f), Remove (file_path env f)]\<rparr>)) \<and>
   (files req ''files'' = Some fl \<and> (\<exists>g\<in>set fl. filename g \<noteq> []) \<and>
      form req ''model'' = Some m \<and> map_of MODEL_PATHS m = Some path \<and>
      new_interpreter env path = Some h0 \<and>
      (\<forall>g\<in>set (named (take 6 fl)). writable env (file_path env g)) \<and>
      (\<forall>h x p h'. invoke env h x = (Some p, h') \<longrightarrow> p \<noteq> [] \<and> [] \<notin> set p) \<longrightarrow>
      (\<exists>rs w'. upload env req w = (Inr (ResultsBody rs, 200), w') \<and>
         length rs = length (named (take 6 fl)) \<and>
         (\<forall>i<length rs.
            map_of (rs ! i) ''filename'' = Some (filename (named (take 6 fl) ! i)) \<and>
            (fst (predict_bytes env (states_at env h0 (named (take 6 fl)) ! i)
                    (stream (named (take 6 fl) ! i))) = None \<longrightarrow>
              rs ! i = [(''filename'', filename (named (take 6 fl) ! i)),
                        (''error'', ''Prediction failed.'')]) \<and>
            (fst (predict_bytes env (states_at env h0 (named (take 6 fl)) ! i)
                    (stream (named (take 6 fl) ! i))) \<noteq> None \<longrightarrow>
              map_of (rs ! i) ''error'' = None))))"
proof (intro conjI impI)
  assume a: "filename f \<noteq> [] \<and> writable env (file_path env f) \<and>
      fst (predict_bytes env h (stream f)) = None"
  then have "process_file env h f w0 =
      (Inr (failed_entry f), snd (predict_bytes env h (stream f)), cleaned env [f] w0)"
    by (cases "predict_bytes env h (stream f)") (simp add: process_file_eq)
  with a show "process_files env h (f # rest) results w0 =
        process_files env (snd (predict_bytes env h (stream f))) rest
          (results @ [[(''filename'', filename f), (''error'', ''Prediction failed.'')]])
          (w0\<lparr>storage := (storage w0)(file_path env f := None),
              trace := trace w0 @ [Save (file_path env f), Remove (file_path env f)]\<rparr>)"
    by (simp add: failed_entry_def cleaned_one)
next
  assume a: "files req ''files'' = Some fl \<and> (\<exists>g\<in>set fl. filename g \<noteq> []) \<and>
      form req ''model'' = Some m \<and> map_of MODEL_PATHS m = Some path \<and>
      new_interpreter env path = Some h0 \<and>
      (\<forall>g\<in>set (named (take 6 fl)). writable env (file_path env g)) \<and>
      (\<forall>h x p h'. invoke env h x = (Some p, h') \<longrightarrow> p \<noteq> [] \<and> [] \<notin> set p)"
  then have fl: "files req ''files'' = Some fl" and m: "form req ''model'' = Some m"
    and path: "map_of MODEL_PATHS m = Some path"
    and h0: "new_interpreter env path = Some h0"
    and wr: "\<forall>g\<in>set (named (take 6 fl)). writable env (file_path env g)"
    and sh: "\<forall>h x p h'. invoke env h x = (Some p, h') \<longrightarrow> p \<noteq> [] \<and> [] \<notin> set p"
    by simp_all
  have ne: "\<not> list_all (\<lambda>f. filename f = []) fl"
    using a by (auto simp: list_all_iff)
  let ?w1 = "w\<lparr>trace := trace w @ [Load path]\<rparr>"
  from process_files_returns[OF wr sh, of h0 "[]" ?w1] obtain rs w' where
    pf: "process_files env h0 (take 6 fl) [] ?w1 = (Inr rs, w')" by blast
  have up: "upload env req w = (Inr (ResultsBody rs, 200), w')"
    unfolding upload_validated[OF fl ne m path] using h0 pf by simp
  from process_files_states[OF pf] have len: "length rs = length (named (take 6 fl))"
    and each: "\<forall>i<length rs.
        entry_at env (states_at env h0 (named (take 6 fl)) ! i) (named (take 6 fl) ! i)
          = Inr (rs ! i)"
    by auto
  have "map_of (rs ! i) ''filename'' = Some (filename (named (take 6 fl) ! i)) \<and>
        (fst (predict_bytes env (states_at env h0 (named (take 6 fl)) ! i)
                (stream (named (take 6 fl) ! i))) = None \<longrightarrow>
           rs ! i = [(''filename'', filename (named (take 6 fl) ! i)),
                     (''error'', ''Prediction failed.'')]) \<and>
        (fst (predict_bytes env (states_at env h0 (named (take 6 fl)) ! i)
                (stream (named (take 6 fl) ! i))) \<noteq> None \<longrightarrow>
           map_of (rs ! i) ''error'' = None)" if "i < length rs" for i
  proof -
    from each that have
      ea: "entry_at env (states_at env h0 (named (take 6 fl)) ! i) (named (take 6 fl) ! i)
          = Inr (rs ! i)" by blast
    show ?thesis
      using entry_at_filename[OF ea] entry_at_failed[OF ea] entry_at_labelled[OF ea]
      by blast
  qed
  with up len show "\<exists>rs w'. upload env req w = (Inr (ResultsBody rs, 200), w') \<and>
         length rs = length (named (take 6 fl)) \<and>
         (\<forall>i<length rs.
            map_of (rs ! i) ''filename'' = Some (filename (named (take 6 fl) ! i)) \<and>
            (fst (predict_bytes env (states_at env h0 (named (take 6 fl)) ! i)
                    (stream (named (take 6 fl) ! i))) = None \<longrightarrow>
              rs ! i = [(''filename'', filename (named (take 6 fl) ! i)),
                        (''error'', ''Prediction failed.'')]) \<and>
            (fst (predict_bytes env (states_at env h0 (named (take 6 fl)) ! i)
                    (stream (named (take 6 fl) ! i))) \<noteq> None \<longrightarrow>
              map_of (rs ! i) ''error'' = None))"
    by blast
qed

text \<open>A request whose first file is predicted and whose second does not decode: the loop
  step for the second file, and the whole response.\<close>

theorem prediction_failure_per_file_witness:
  "fst (predict_bytes demo_env 7 (stream (img ''b.png'' []))) = None \<and>
   process_files demo_env 7 [img ''b.png'' [], img ''c.png'' [1, 2, 3]] [] demo_world =
     process_files demo_env 7 [img ''c.png'' [1, 2, 3]]
       [[(''filename'', ''b.png''), (''error'', ''Prediction failed.'')]]
       (demo_world\<lparr>storage := (storage demo_world)(''/srv/app/uploads/b.png'' := None),
          trace := trace demo_world @
            [Save ''/srv/app/uploads/b.png'', Remove ''/srv/app/uploads/b.png'']\<rparr>) \<and>
   states_at demo_env 0 [img ''a.png'' [1, 2, 3], img ''b.png'' []] = [0, 1] \<and>
   fst (predict_bytes demo_env 0 (stream (img ''a.png'' [1, 2, 3]))) \<noteq> None \<and>
   fst (predict_bytes demo_env 1 (stream (img ''b.png'' []))) = None \<and>
   (\<exists>rs w'. upload demo_env demo_req demo_world = (Inr (ResultsBody rs, 200), w') \<and>
      length rs = 2 \<and>
      map_of (rs ! 0) ''filename'' = Some ''a.png'' \<and>
      map_of (rs ! 0) ''error'' = None \<and>
      rs ! 1 = [(''filename'', ''b.png''), (''error'', ''Prediction failed.'')])"
proof -
  let ?fl = "[img ''a.png'' [1, 2, 3], img ''b.png'' []]"
  let ?b = "img ''b.png'' []"
  note inst = prediction_failure_per_file[of ?b demo_env 7 "[img ''c.png'' [1, 2, 3]]" "[]"
      demo_world demo_req ?fl "''MobileNetV2''" "''models/MobileNetV2.tflite''" 0 demo_world]
  have fails7: "fst (predict_bytes demo_env 7 (stream ?b)) = None"
    by (simp add: predict_bytes_def demo_env_def img_def)
  have pa: "filename ?b \<noteq> [] \<and> writable demo_env (file_path demo_env ?b) \<and>
      fst (predict_bytes demo_env 7 (stream ?b)) = None"
    using fails7 by (simp add: img_def demo_env_def)
  have fp: "file_path demo_env ?b = ''/srv/app/uploads/b.png''"
    by (simp add: file_path_def UPLOAD_FOLDER_def path_join_def demo_env_def img_def)
  have sb: "snd (predict_bytes demo_env 7 (stream ?b)) = 7"
    by (simp add: predict_bytes_def demo_env_def img_def)
  have fb: "filename ?b = ''b.png''" by (simp add: img_def)
  from conjunct1[OF inst] pa have
    "process_files demo_env 7 (?b # [img ''c.png'' [1, 2, 3]]) [] demo_world =
        process_files demo_env (snd (predict_bytes demo_env 7 (stream ?b))) [img ''c.png'' [1, 2, 3]]
          ([] @ [[(''filename'', filename ?b), (''error'', ''Prediction failed.'')]])
          (demo_world\<lparr>storage := (storage demo_world)(file_path demo_env ?b := None),
              trace := trace demo_world @
                [Save (file_path demo_env ?b), Remove (file_path demo_env ?b)]\<rparr>)"
    by (rule mp)
  then have part1:
    "process_files demo_env 7 [img ''b.png'' [], img ''c.png'' [1, 2, 3]] [] demo_world =
     process_files demo_env 7 [img ''c.png'' [1, 2, 3]]
       [[(''filename'', ''b.png''), (''error'', ''Prediction failed.'')]]
       (demo_world\<lparr>storage := (storage demo_world)(''/srv/app/uploads/b.png'' := None),
          trace := trace demo_world @
            [Save ''/srv/app/uploads/b.png'', Remove ''/srv/app/uploads/b.png'']\<rparr>)"
    unfolding fp sb fb by simp
  have h2: "\<exists>g\<in>set ?fl. filename g \<noteq> []" by (simp add: img_def)
  have h5: "new_interpreter demo_env ''models/MobileNetV2.tflite'' = Some 0"
    by (simp add: demo_env_def)
  have h6: "\<forall>g\<in>set (named (take 6 ?fl)). writable demo_env (file_path demo_env g)"
    by (simp add: demo_env_def)
  have sts: "states_at demo_env 0 ?fl = [0, 1]"
    by (simp add: predict_bytes_def demo_env_def img_def)
  have ok: "fst (predict_bytes demo_env 0 (stream (img ''a.png'' [1, 2, 3]))) \<noteq> None"
    by (simp add: predict_bytes_def demo_env_def img_def)
  have fails: "fst (predict_bytes demo_env 1 (stream ?b)) = None"
    by (simp add: predict_bytes_def demo_env_def img_def)
  have pb: "files demo_req ''files'' = Some ?fl \<and> (\<exists>g\<in>set ?fl. filename g \<noteq> []) \<and>
      form demo_req ''model'' = Some ''MobileNetV2'' \<and>
      map_of MODEL_PATHS ''MobileNetV2'' = Some ''models/MobileNetV2.tflite'' \<and>
      new_interpreter demo_env ''models/MobileNetV2.tflite'' = Some 0 \<and>
      (\<forall>g\<in>set (named (take 6 ?fl)). writable demo_env (file_path demo_env g)) \<and>
      (\<forall>h x p h'. invoke demo_env h x = (Some p, h') \<longrightarrow> p \<noteq> [] \<and> [] \<notin> set p)"
    using demo_files h2 demo_form demo_model h5 h6 demo_shaped by (intro conjI)
  from conjunct2[OF inst] pb have
    "\<exists>rs w'. upload demo_env demo_req demo_world = (Inr (ResultsBody rs, 200), w') \<and>
         length rs = length (named (take 6 ?fl)) \<and>
         (\<forall>i<length rs.
            map_of (rs ! i) ''filename'' = Some (filename (named (take 6 ?fl) ! i)) \<and>
            (fst (predict_bytes demo_env (states_at demo_env 0 (named (take 6 ?fl)) ! i)
                    (stream (named (take 6 ?fl) ! i))) = None \<longrightarrow>
              rs ! i = [(''filename'', filename (named (take 6 ?fl) ! i)),
                        (''error'', ''Prediction failed.'')]) \<and>
            (fst (predict_bytes demo_env (states_at demo_env 0 (named (take 6 ?fl)) ! i)
                    (stream (named (take 6 ?fl) ! i))) \<noteq> None \<longrightarrow>
              map_of (rs ! i) ''error'' = None))"
    by (rule mp)
  then obtain rs w' where
    up: "upload demo_env demo_req demo_world = (Inr (ResultsBody rs, 200), w')"
    and len: "length rs = length (named (take 6 ?fl))"
    and each: "\<forall>i<length rs.
            map_of (rs ! i) ''filename'' = Some (filename (named (take 6 ?fl) ! i)) \<and>
            (fst (predict_bytes demo_env (states_at demo_env 0 (named (take 6 ?fl)) ! i)
                    (stream (named (take 6 ?fl) ! i))) = None \<longrightarrow>
              rs ! i = [(''filename'', filename (named (take 6 ?fl) ! i)),
                        (''error'', ''Prediction failed.'')]) \<and>
            (fst (predict_bytes demo_env (states_at demo_env 0 (named (take 6 ?fl)) ! i)
                    (stream (named (take 6 ?fl) ! i))) \<noteq> None \<longrightarrow>
              map_of (rs ! i) ''error'' = None)"
    by (elim exE conjE)
  have len2: "length rs = 2" using len unfolding demo_named by simp
  have l0: "0 < length rs" and l1: "1 < length rs" using len2 by simp_all
  from each[rule_format, OF l0] ok
  have e0: "map_of (rs ! 0) ''filename'' = Some ''a.png'' \<and> map_of (rs ! 0) ''error'' = None"
    unfolding demo_named sts by (simp add: img_def)
  from each[rule_format, OF l1] fails
  have e1: "rs ! 1 = [(''filename'', ''b.png''), (''error'', ''Prediction failed.'')]"
    unfolding demo_named sts by (simp add: img_def)
  from up len2 e0 e1 have "\<exists>rs w'. upload demo_env demo_req demo_world = (Inr (ResultsBody rs, 200), w') \<and>
      length rs = 2 \<and>
      map_of (rs ! 0) ''filename'' = Some ''a.png'' \<and>
      map_of (rs ! 0) ''error'' = None \<and>
      rs ! 1 = [(''filename'', ''b.png''), (''error'', ''Prediction failed.'')]"
    by (intro exI[of _ rs] exI[of _ w'] conjI) simp_all
  with fails7 part1 sts ok fails show ?thesis by (intro conjI)
qed

text \<open>
  C4 as stated fails in its last part: the first file of this request does not decode and
  gets its error entry, the loop goes on, and the save of the second file raises (its
  sanitized name is empty, so the path is the upload directory); the exception leaves the
  handler and the request is not answered with status 200.
\<close>

theorem prediction_failure_then_save_raises:
  "fst (predict_bytes strict_env 0 (stream (img ''b.png'' []))) = None \<and>
   process_files strict_env 0 [img ''b.png'' [], img ''..'' [1]] [] demo_world =
     process_files strict_env 0 [img ''..'' [1]]
       [[(''filename'', ''b.png''), (''error'', ''Prediction failed.'')]]
       (demo_world\<lparr>storage := (storage demo_world)(''/srv/app/uploads/b.png'' := None),
          trace := trace demo_world @
            [Save ''/srv/app/uploads/b.png'', Remove ''/srv/app/uploads/b.png'']\<rparr>) \<and>
   fst (upload strict_env dotdot_req demo_world) = Inl (SaveError ''/srv/app/uploads/'')"
  by (simp add: eval_defs predict_bytes_def)

text \<open>
  C5, as the code has it. When the arg-max position of the first output row is outside
  the four class labels, the interpreter gives the sentinel string and raises nothing, and
  the file's entry carries it under \<^verbatim>\<open>predicted_class\<close>. Such a row has more than four
  entries: the arg-max of a row is one of its positions, so a row shorter than the label
  set is never such a case.
\<close>

theorem out_of_range_sentinel:
  assumes "argmax row = Inr k" "length class_labels \<le> k" "[] \<notin> set rows"
    and "writable env (file_path env f)"
    and "predict_bytes env h (stream f) = (Some (row # rows), h1)"
  shows "predicted_label (row # rows) = Inr ''Prediction index out of range.'' \<and>
         length class_labels < length row \<and>
         fst (process_file env h f w) =
           Inr [(''filename'', filename f), (''predicted_class'', ''Prediction index out of range.'')]"
proof -
  have pl: "predicted_label (row # rows) = Inr ''Prediction index out of range.''"
    using predicted_label_eq[OF assms(1,3)] assms(2) by simp
  have "row \<noteq> []" using assms(1) by (auto simp: argmax_def)
  from argmax_first[OF this] assms(1) have "k < length row" by auto
  with assms(2) have "length class_labels < length row" by simp
  moreover have "fst (process_file env h f w) =
           Inr [(''filename'', filename f), (''predicted_class'', ''Prediction index out of range.'')]"
    using pl assms(5) by (simp add: process_file_eq[OF assms(4)] label_entry_def)
  ultimately show ?thesis using pl by blast
qed

text \<open>A model with five outputs whose largest is the fifth.\<close>

theorem out_of_range_sentinel_witness:
  "argmax [1, 2, 3, 4, 9] = Inr 4 \<and> length class_labels \<le> 4 \<and>
   predict_bytes wide_env 0 (stream (img ''a.png'' [1, 2, 3])) = (Some [[1, 2, 3, 4, 9]], 1) \<and>
   predicted_label [[1, 2, 3, 4, 9]] = Inr ''Prediction index out of range.'' \<and>
   length class_labels < length [1, 2, 3, 4, 9 :: real] \<and>
   fst (process_file wide_env 0 (img ''a.png'' [1, 2, 3]) demo_world) =
     Inr [(''filename'', ''a.png''), (''predicted_class'', ''Prediction index out of range.'')]"
proof -
  have h1: "argmax [1, 2, 3, 4, 9] = Inr 4" by (simp add: argmax_def)
  have h2: "length class_labels \<le> 4" by (simp add: class_labels_def)
  have h3: "[] \<notin> set ([] :: real list list)" by simp
  have h4: "writable wide_env (file_path wide_env (img ''a.png'' [1, 2, 3]))"
    by (simp add: wide_env_def demo_env_def)
  have h5: "predict_bytes wide_env 0 (stream (img ''a.png'' [1, 2, 3])) = (Some [[1, 2, 3, 4, 9]], 1)"
    by (simp add: predict_bytes_def wide_env_def demo_env_def img_def)
  from out_of_range_sentinel[OF h1 h2 h3 h4 h5, of demo_world] h1 h2 h5
  show ?thesis by (simp add: img_def)
qed

text \<open>
  C5 as stated fails in its particular case: an output row of three entries, shorter than
  the label set, gives the label at its arg-max and not the sentinel.
\<close>

theorem short_vector_yields_label:
  "length [1, 7, 2 :: real] < length class_labels \<and>
   predicted_label [[1, 7, 2]] = Inr ''PreB'' \<and>
   predicted_label [[1, 7, 2]] \<noteq> Inr ''Prediction index out of range.''"
  by (simp add: predicted_label_def argmax_def class_labels_def)

text \<open>
  C6. For a non-empty first output row the interpreter picks the position \<open>k\<close> of the
  maximum that no other position of the maximum precedes, and returns the label at \<open>k\<close>;
  with two or more entries equal to the maximum this is the lowest of their indices.
\<close>

theorem argmax_lowest_index_on_ties:
  assumes "row \<noteq> []" "[] \<notin> set rows"
  shows "\<exists>k<length row.
           row ! k = Max (set row) \<and>
           (\<forall>j<length row. row ! j = Max (set row) \<longrightarrow> k \<le> j) \<and>
           argmax row = Inr k \<and>
           predicted_label (row # rows) =
             Inr (if k < length class_labels then class_labels ! k
                  else ''Prediction index out of range.'')"
proof -
  from argmax_first[OF assms(1)] obtain k where k: "argmax row = Inr k" "k < length row"
    and ub: "\<forall>j<length row. row ! j \<le> row ! k" and lo: "\<forall>j<k. row ! j < row ! k"
    by blast
  have mx: "row ! k = Max (set row)"
  proof (rule antisym)
    show "row ! k \<le> Max (set row)" using k(2) by simp
    show "Max (set row) \<le> row ! k"
      using ub assms(1) by (auto simp: in_set_conv_nth)
  qed
  have first: "\<forall>j<length row. row ! j = Max (set row) \<longrightarrow> k \<le> j"
  proof (intro allI impI)
    fix j assume "j < length row" "row ! j = Max (set row)"
    with lo mx show "k \<le> j" by (metis less_irrefl not_le_imp_less)
  qed
  from k mx first predicted_label_eq[OF k(1) assms(2)] show ?thesis by blast
qed

text \<open>The maximum 7 stands at positions 1 and 2: the label of position 1 is returned.\<close>

theorem argmax_lowest_index_on_ties_witness:
  "[1, 7, 7, 2 :: real] ! 1 = Max (set [1, 7, 7, 2]) \<and>
   [1, 7, 7, 2 :: real] ! 2 = Max (set [1, 7, 7, 2]) \<and>
   predicted_label [[1, 7, 7, 2]] = Inr ''PreB'' \<and>
   (\<exists>k<length [1, 7, 7, 2 :: real].
      [1, 7, 7, 2 :: real] ! k = Max (set [1, 7, 7, 2]) \<and> k \<le> 1 \<and>
      argmax [1, 7, 7, 2] = Inr k \<and>
      predicted_label [[1, 7, 7, 2]] =
        Inr (if k < length class_labels then class_labels ! k
             else ''Prediction index out of range.''))"
proof -
  have h1: "[1, 7, 7, 2 :: real] \<noteq> []" by simp
  have h2: "[] \<notin> set ([] :: real list list)" by simp
  have m: "[1, 7, 7, 2 :: real] ! 1 = Max (set [1, 7, 7, 2])" by simp
  have m2: "[1, 7, 7, 2 :: real] ! 2 = Max (set [1, 7, 7, 2])" by simp
  have p: "predicted_label [[1, 7, 7, 2]] = Inr ''PreB''"
    by (simp add: predicted_label_def argmax_def class_labels_def)
  from argmax_lowest_index_on_ties[OF h1 h2] obtain k where k: "k < length [1, 7, 7, 2 :: real]"
    "[1, 7, 7, 2 :: real] ! k = Max (set [1, 7, 7, 2])"
    "\<forall>j<length [1, 7, 7, 2 :: real]. [1, 7, 7, 2 :: real] ! j = Max (set [1, 7, 7, 2]) \<longrightarrow> k \<le> j"
    "argmax [1, 7, 7, 2] = Inr k"
    "predicted_label [[1, 7, 7, 2]] =
        Inr (if k < length class_labels then class_labels ! k
             else ''Prediction index out of range.'')"
    by blast
  from k(3)[rule_format, of 1] m have "k \<le> 1" by simp
  with k m m2 p show ?thesis by blast
qed

text \<open>
  C7. When the field \<^verbatim>\<open>files\<close> is present and its list is empty or holds unnamed
  entries only, the answer is status 400 with the text of line 73, and the world is the
  one the request found: nothing was loaded, nothing saved.
\<close>

theorem upload_no_named_file_400:
  assumes "files req ''files'' = Some fl" "fl = [] \<or> (\<forall>f\<in>set fl. filename f = [])"
  shows "upload env req w = (Inr (ErrorBody ''At least one image file is required.'', 400), w)"
  using assms by (auto simp: upload_def getlist_def list_all_iff)

text \<open>Two unnamed entries, and an empty list.\<close>

theorem upload_no_named_file_400_witness:
  "files unnamed_req ''files'' = Some [img [] [], img [] []] \<and>
   upload demo_env unnamed_req demo_world =
     (Inr (ErrorBody ''At least one image file is required.'', 400), demo_world) \<and>
   upload demo_env (unnamed_req\<lparr>files := [''files'' \<mapsto> []]\<rparr>) demo_world =
     (Inr (ErrorBody ''At least one image file is required.'', 400), demo_world)"
proof -
  have h1: "files unnamed_req ''files'' = Some [img [] [], img [] []]"
    by (simp add: unnamed_req_def)
  have h2: "[img [] [], img [] []] = [] \<or> (\<forall>f\<in>set [img [] [], img [] []]. filename f = [])"
    by (simp add: img_def)
  have g1: "files (unnamed_req\<lparr>files := [''files'' \<mapsto> []]\<rparr>) ''files'' = Some []" by simp
  have g2: "([] :: file_storage list) = [] \<or> (\<forall>f\<in>set ([] :: file_storage list). filename f = [])"
    by simp
  from upload_no_named_file_400[OF h1 h2, of demo_env demo_world]
    upload_no_named_file_400[OF g1 g2, of demo_env demo_world] h1
  show ?thesis by (intro conjI)
qed

text \<open>
  C8. When the file checks pass and the form field \<^verbatim>\<open>model\<close> is absent or is not a key
  of \<^verbatim>\<open>MODEL_PATHS\<close>, the answer is status 400 with the text of line 77, and the world is
  the one the request found: nothing was loaded, no file processed.
\<close>

theorem upload_unknown_model_400:
  assumes "files req ''files'' = Some fl" "fl \<noteq> []" "\<exists>f\<in>set fl. filename f \<noteq> []"
    and "form req ''model'' \<notin> Some ` fst ` set MODEL_PATHS"
  shows "upload env req w = (Inr (ErrorBody ''Invalid model selected.'', 400), w)"
proof -
  have ne: "\<not> list_all (\<lambda>f. filename f = []) fl" using assms(3) by (auto simp: list_all_iff)
  show ?thesis
  proof (cases "form req ''model''")
    case None
    with assms(1,2) ne show ?thesis by (simp add: upload_def getlist_def)
  next
    case (Some m)
    with assms(4) have "m \<notin> fst ` set MODEL_PATHS" by auto
    then have "map_of MODEL_PATHS m = None" by (simp add: map_of_eq_None_iff)
    with Some assms(1,2) ne show ?thesis by (simp add: upload_def getlist_def)
  qed
qed

text \<open>A model name that is not registered, and a request without the field.\<close>

theorem upload_unknown_model_400_witness:
  "form unknown_model_req ''model'' = Some ''ResNet50'' \<and>
   upload demo_env unknown_model_req demo_world =
     (Inr (ErrorBody ''Invalid model selected.'', 400), demo_world) \<and>
   form (unknown_model_req\<lparr>form := Map.empty\<rparr>) ''model'' = None \<and>
   upload demo_env (unknown_model_req\<lparr>form := Map.empty\<rparr>) demo_world =
     (Inr (ErrorBody ''Invalid model selected.'', 400), demo_world)"
proof -
  let ?fl = "[img ''a.png'' [1, 2, 3]]"
  have h1: "files unknown_model_req ''files'' = Some ?fl" by (simp add: unknown_model_req_def)
  have h2: "?fl \<noteq> []" by simp
  have h3: "\<exists>f\<in>set ?fl. filename f \<noteq> []" by (simp add: img_def)
  have f: "form unknown_model_req ''model'' = Some ''ResNet50''"
    by (simp add: unknown_model_req_def)
  have h4: "form unknown_model_req ''model'' \<notin> Some ` fst ` set MODEL_PATHS"
    by (simp add: f MODEL_PATHS_def)
  have g1: "files (unknown_model_req\<lparr>form := Map.empty\<rparr>) ''files'' = Some ?fl"
    by (simp add: unknown_model_req_def)
  have g0: "form (unknown_model_req\<lparr>form := Map.empty\<rparr>) ''model'' = None" by simp
  have g4: "form (unknown_model_req\<lparr>form := Map.empty\<rparr>) ''model'' \<notin> Some ` fst ` set MODEL_PATHS"
    unfolding g0 by blast
  from upload_unknown_model_400[OF h1 h2 h3 h4, of demo_env demo_world]
    upload_unknown_model_400[OF g1 h2 h3 g4, of demo_env demo_world] f g0
  show ?thesis by (intro conjI)
qed

text \<open>
  C9. The backend is deterministic when an invocation leaves nothing in the interpreter
  that changes a later output. Then two runs of the handler with the same model, each
  answered with results, give the same label (or the same failure) to any two files with
  the same bytes, whatever their names, their places in the requests, the other files and
  the storage the runs started from. This holds as well for two files of one request.
\<close>

theorem same_bytes_same_label:
  assumes "\<forall>h x x'. fst (invoke env (snd (invoke env h x)) x') = fst (invoke env h x')"
    and "files req1 ''files'' = Some fl1" "files req2 ''files'' = Some fl2"
    and "form req1 ''model'' = form req2 ''model''"
    and "upload env req1 w1 = (Inr (ResultsBody rs1, c1), w1')"
    and "upload env req2 w2 = (Inr (ResultsBody rs2, c2), w2')"
  shows "length rs1 = length (named (take 6 fl1)) \<and>
         length rs2 = length (named (take 6 fl2)) \<and>
         (\<forall>i<length rs1. \<forall>j<length rs2.
            stream (named (take 6 fl1) ! i) = stream (named (take 6 fl2) ! j) \<longrightarrow>
            map_of (rs1 ! i) ''predicted_class'' = map_of (rs2 ! j) ''predicted_class'' \<and>
            map_of (rs1 ! i) ''error'' = map_of (rs2 ! j) ''error'')"
proof -
  from upload_results[OF assms(5)] assms(2) obtain m path h0 where
    m1: "form req1 ''model'' = Some m" and p1: "map_of MODEL_PATHS m = Some path"
    and l1: "new_interpreter env path = Some h0"
    and rel1: "list_all2 (\<lambda>f r. \<exists>hi\<in>reach env h0. entry_at env hi f = Inr r)
                 (named (take 6 fl1)) rs1"
    by auto
  from upload_results[OF assms(6)] assms(3) obtain m' path' h0' where
    m2: "form req2 ''model'' = Some m'" and p2: "map_of MODEL_PATHS m' = Some path'"
    and l2: "new_interpreter env path' = Some h0'"
    and rel2': "list_all2 (\<lambda>f r. \<exists>hi\<in>reach env h0'. entry_at env hi f = Inr r)
                 (named (take 6 fl2)) rs2"
    by auto
  from m1 m2 assms(4) have "m' = m" by simp
  with p1 p2 have "path' = path" by simp
  with l1 l2 have "h0' = h0" by simp
  with rel2' have rel2: "list_all2 (\<lambda>f r. \<exists>hi\<in>reach env h0. entry_at env hi f = Inr r)
                 (named (take 6 fl2)) rs2" by simp
  have len1: "length rs1 = length (named (take 6 fl1))" using rel1 by (simp add: list_all2_lengthD)
  have len2: "length rs2 = length (named (take 6 fl2))" using rel2 by (simp add: list_all2_lengthD)
  have same: "map_of (rs1 ! i) ''predicted_class'' = map_of (rs2 ! j) ''predicted_class'' \<and>
              map_of (rs1 ! i) ''error'' = map_of (rs2 ! j) ''error''"
    if "i < length rs1" "j < length rs2"
      "stream (named (take 6 fl1) ! i) = stream (named (take 6 fl2) ! j)" for i j
  proof -
    from list_all2_nthD2[OF rel1 that(1)] obtain hi where
      hi: "hi \<in> reach env h0" "entry_at env hi (named (take 6 fl1) ! i) = Inr (rs1 ! i)" by blast
    from det_entry_at[OF assms(1) hi(1)] hi(2)
    have e1: "entry_at env h0 (named (take 6 fl1) ! i) = Inr (rs1 ! i)" by simp
    from list_all2_nthD2[OF rel2 that(2)] obtain hj where
      hj: "hj \<in> reach env h0" "entry_at env hj (named (take 6 fl2) ! j) = Inr (rs2 ! j)" by blast
    from det_entry_at[OF assms(1) hj(1)] hj(2)
    have e2: "entry_at env h0 (named (take 6 fl2) ! j) = Inr (rs2 ! j)" by simp
    from entry_at_payload[OF e1 e2 that(3)] show ?thesis .
  qed
  from len1 len2 same show ?thesis by blast
qed

text \<open>The same three bytes as \<^verbatim>\<open>a.png\<close>, first of one request, and as \<^verbatim>\<open>c.png\<close>, second
  of a later request that starts from the world the first one left.\<close>

theorem same_bytes_same_label_witness:
  "stream (img ''a.png'' [1, 2, 3]) = stream (img ''c.png'' [1, 2, 3]) \<and>
   fst (upload demo_env demo_req demo_world) =
     Inr (ResultsBody [[(''filename'', ''a.png''), (''predicted_class'', ''EarlyPreB'')],
                       [(''filename'', ''b.png''), (''error'', ''Prediction failed.'')]], 200) \<and>
   fst (upload demo_env other_req (snd (upload demo_env demo_req demo_world))) =
     Inr (ResultsBody [[(''filename'', ''z.png''), (''predicted_class'', ''PreB'')],
                       [(''filename'', ''c.png''), (''predicted_class'', ''EarlyPreB'')]], 200) \<and>
   map_of [(''filename'', ''a.png''), (''predicted_class'', ''EarlyPreB'')] ''predicted_class'' =
     map_of [(''filename'', ''c.png''), (''predicted_class'', ''EarlyPreB'')] ''predicted_class''"
proof -
  let ?fl1 = "[img ''a.png'' [1, 2, 3], img ''b.png'' []]"
  let ?fl2 = "[img ''z.png'' [5], img ''c.png'' [1, 2, 3]]"
  let ?w2 = "snd (upload demo_env demo_req demo_world)"
  let ?rs1 = "[[(''filename'', ''a.png''), (''predicted_class'', ''EarlyPreB'')],
               [(''filename'', ''b.png''), (''error'', ''Prediction failed.'')]]"
  let ?rs2 = "[[(''filename'', ''z.png''), (''predicted_class'', ''PreB'')],
               [(''filename'', ''c.png''), (''predicted_class'', ''EarlyPreB'')]]"
  have det: "\<forall>h x x'. fst (invoke demo_env (snd (invoke demo_env h x)) x') = fst (invoke demo_env h x')"
    by (simp add: demo_env_def)
  have b1: "files other_req ''files'' = Some ?fl2" by (simp add: other_req_def)
  have mm: "form demo_req ''model'' = form other_req ''model''"
    by (simp add: demo_req_def other_req_def)
  have u1: "upload demo_env demo_req demo_world = (Inr (ResultsBody ?rs1, 200), ?w2)"
    using demo_response by (simp add: prod_eq_iff)
  have w2: "?w2 =
     \<lparr>storage = (Map.empty(''/srv/app/uploads/a.png'' := None))(''/srv/app/uploads/b.png'' := None),
      trace = [Load ''models/MobileNetV2.tflite'', Save ''/srv/app/uploads/a.png'',
        Remove ''/srv/app/uploads/a.png'', Save ''/srv/app/uploads/b.png'',
        Remove ''/srv/app/uploads/b.png'']\<rparr>"
    by (simp add: eval_defs)
  have r2: "fst (upload demo_env other_req ?w2) = Inr (ResultsBody ?rs2, 200)"
    unfolding w2 by (simp add: eval_defs)
  then have u2: "upload demo_env other_req ?w2 =
      (Inr (ResultsBody ?rs2, 200), snd (upload demo_env other_req ?w2))"
    by (simp add: prod_eq_iff)
  have n1: "named (take 6 ?fl1) = ?fl1" and n2: "named (take 6 ?fl2) = ?fl2"
    by (simp_all add: named_def img_def)
  have st: "stream (img ''a.png'' [1, 2, 3]) = stream (img ''c.png'' [1, 2, 3])"
    by (simp add: img_def)
  have s01: "stream (named (take 6 ?fl1) ! 0) = stream (named (take 6 ?fl2) ! 1)"
    unfolding n1 n2 by (simp add: img_def)
  from same_bytes_same_label[OF det demo_files b1 mm u1 u2]
  have "\<forall>i<length ?rs1. \<forall>j<length ?rs2.
            stream (named (take 6 ?fl1) ! i) = stream (named (take 6 ?fl2) ! j) \<longrightarrow>
            map_of (?rs1 ! i) ''predicted_class'' = map_of (?rs2 ! j) ''predicted_class'' \<and>
            map_of (?rs1 ! i) ''error'' = map_of (?rs2 ! j) ''error''"
    by (elim conjE)
  from this[rule_format, of 0 1] s01
  have "map_of (?rs1 ! 0) ''predicted_class'' = map_of (?rs2 ! 1) ''predicted_class''"
    by simp
  then have pc: "map_of [(''filename'', ''a.png''), (''predicted_class'', ''EarlyPreB'')] ''predicted_class'' =
     map_of [(''filename'', ''c.png''), (''predicted_class'', ''EarlyPreB'')] ''predicted_class''"
    by simp
  from st demo_response r2 pc show ?thesis by (intro conjI)
qed

text \<open>
  C10. A request that passes the three checks loads the model exactly once, before
  anything else reaches outside: the calls of the request begin with the one load and hold
  no other. If the load fails, its exception leaves the handler, there is no response and
  so no result entry, and storage is what it was. A request that fails a check loads
  nothing and leaves the world as it found it.
\<close>

theorem load_once_after_validation:
  "(passes_validation req \<longrightarrow>
      (\<exists>m path evs. form req ''model'' = Some m \<and> map_of MODEL_PATHS m = Some path \<and>
         trace (snd (upload env req w)) = trace w @ Load path # evs \<and>
         (\<forall>e\<in>set evs. \<not> is_Load e) \<and>
         (new_interpreter env path = None \<longrightarrow>
            upload env req w = (Inl InterpreterError, w\<lparr>trace := trace w @ [Load path]\<rparr>)))) \<and>
   (\<not> passes_validation req \<longrightarrow> snd (upload env req w) = w)"
proof (intro conjI impI)
  assume "\<not> passes_validation req"
  from upload_rejected[OF this, of env w] show "snd (upload env req w) = w" by auto
next
  assume "passes_validation req"
  then obtain fl m path where v: "files req ''files'' = Some fl"
      "\<not> list_all (\<lambda>f. filename f = []) fl" "form req ''model'' = Some m"
      "map_of MODEL_PATHS m = Some path"
    by (rule passes_validationD)
  let ?w1 = "w\<lparr>trace := trace w @ [Load path]\<rparr>"
  have fail: "new_interpreter env path = None \<longrightarrow>
            upload env req w = (Inl InterpreterError, ?w1)"
    unfolding upload_validated[OF v] by simp
  have "\<exists>evs. trace (snd (upload env req w)) = trace w @ Load path # evs \<and>
         (\<forall>e\<in>set evs. \<not> is_Load e)"
  proof (cases "new_interpreter env path")
    case None
    then show ?thesis unfolding upload_validated[OF v] by simp
  next
    case (Some h0)
    from process_files_trace[of env h0 "take 6 fl" "[]" ?w1] obtain evs where
      "trace (snd (process_files env h0 (take 6 fl) [] ?w1)) = trace ?w1 @ evs"
      "\<forall>e\<in>set evs. \<not> is_Load e" by blast
    then show ?thesis unfolding upload_validated[OF v] using Some
      by (auto split: prod.splits sum.splits)
  qed
  then obtain evs where ev: "trace (snd (upload env req w)) = trace w @ Load path # evs"
      "\<forall>e\<in>set evs. \<not> is_Load e" by blast
  show "\<exists>m path evs. form req ''model'' = Some m \<and> map_of MODEL_PATHS m = Some path \<and>
         trace (snd (upload env req w)) = trace w @ Load path # evs \<and>
         (\<forall>e\<in>set evs. \<not> is_Load e) \<and>
         (new_interpreter env path = None \<longrightarrow>
            upload env req w = (Inl InterpreterError, w\<lparr>trace := trace w @ [Load path]\<rparr>))"
    using fail v(3,4) ev by (intro exI[of _ m] exI[of _ path] exI[of _ evs]) simp
qed

text \<open>A valid request with the model artifacts missing, and a request for a model that is
  not registered.\<close>

theorem load_once_after_validation_witness:
  "passes_validation demo_req \<and>
   new_interpreter broken_env ''models/MobileNetV2.tflite'' = None \<and>
   upload broken_env demo_req demo_world =
     (Inl InterpreterError,
      demo_world\<lparr>trace := trace demo_world @ [Load ''models/MobileNetV2.tflite'']\<rparr>) \<and>
   \<not> passes_validation unknown_model_req \<and>
   snd (upload broken_env unknown_model_req demo_world) = demo_world"
proof -
  have p: "passes_validation demo_req"
    by (simp add: passes_validation_def demo_req_def img_def MODEL_PATHS_def)
  have q: "\<not> passes_validation unknown_model_req"
    by (simp add: passes_validation_def unknown_model_req_def img_def MODEL_PATHS_def)
  have n: "new_interpreter broken_env ''models/MobileNetV2.tflite'' = None"
    by (simp add: broken_env_def)
  from conjunct1[OF load_once_after_validation[of demo_req broken_env demo_world]] p
  have "\<exists>m path evs. form demo_req ''model'' = Some m \<and> map_of MODEL_PATHS m = Some path \<and>
         trace (snd (upload broken_env demo_req demo_world)) = trace demo_world @ Load path # evs \<and>
         (\<forall>e\<in>set evs. \<not> is_Load e) \<and>
         (new_interpreter broken_env path = None \<longrightarrow>
            upload broken_env demo_req demo_world =
              (Inl InterpreterError, demo_world\<lparr>trace := trace demo_world @ [Load path]\<rparr>))"
    by (rule mp)
  then obtain m' path where
    f: "form demo_req ''model'' = Some m'" "map_of MODEL_PATHS m' = Some path"
    and imp: "new_interpreter broken_env path = None \<longrightarrow>
            upload broken_env demo_req demo_world =
              (Inl InterpreterError, demo_world\<lparr>trace := trace demo_world @ [Load path]\<rparr>)"
    by (elim exE conjE)
  from f demo_form demo_model have "path = ''models/MobileNetV2.tflite''" by simp
  with imp n have u: "upload broken_env demo_req demo_world =
     (Inl InterpreterError,
      demo_world\<lparr>trace := trace demo_world @ [Load ''models/MobileNetV2.tflite'']\<rparr>)"
    by simp
  from conjunct2[OF load_once_after_validation[of unknown_model_req broken_env demo_world]] q
  have "snd (upload broken_env unknown_model_req demo_world) = demo_world" by (rule mp)
  with p q n u show ?thesis by (intro conjI)
qed

end
